theory Spec2Isabelle
  imports Main
begin

section \<open>Floating point and strings\<close>

text \<open>
  The amounts of \<^verbatim>\<open>main.py\<close> are Python floats, IEEE 754 binary64 values. The source uses
  five operations on them: \<^verbatim>\<open>+\<close>, \<^verbatim>\<open>-\<close>, the literal \<^verbatim>\<open>0.0\<close>, the comparison \<^verbatim>\<open><\<close> and the
  builtin \<^verbatim>\<open>sum\<close>, whose algorithm on floats differs between versions of the interpreter.
  They are the fields of a record that every function takes as its first argument, and
  nothing is assumed of them: what is proved holds for binary64 with its rounding,
  infinities and NaN. \<open>'f\<close> is the type of the floats.
\<close>

record 'f arith =
  fadd :: "'f \<Rightarrow> 'f \<Rightarrow> 'f"
  fsub :: "'f \<Rightarrow> 'f \<Rightarrow> 'f"
  fzero :: 'f
  fless :: "'f \<Rightarrow> 'f \<Rightarrow> bool"
  fsum :: "'f list \<Rightarrow> 'f"

text \<open>
  A Python string is a sequence of Unicode code points. \<^verbatim>\<open>str.strip()\<close> drops the leading
  and trailing code points that Python counts as whitespace.
\<close>

type_synonym pystr = "nat list"

definition is_space :: "nat \<Rightarrow> bool" where
  "is_space c \<longleftrightarrow>
     (9 \<le> c \<and> c \<le> 13) \<or> (28 \<le> c \<and> c \<le> 32) \<or> c = 133 \<or> c = 160 \<or> c = 5760 \<or>
     (8192 \<le> c \<and> c \<le> 8202) \<or> c = 8232 \<or> c = 8233 \<or> c = 8239 \<or> c = 8287 \<or> c = 12288"

definition strip :: "pystr \<Rightarrow> pystr" where
  "strip s = rev (dropWhile is_space (rev (dropWhile is_space s)))"

section \<open>Data model\<close>

text \<open>
  The dataclasses of the source as records; Python's \<^verbatim>\<open>int\<close> is \<^typ>\<open>int\<close>. Field names
  follow the source; \<^verbatim>\<open>Vehicle.id\<close> is \<open>v_id\<close>, the two \<^verbatim>\<open>date\<close> fields are \<open>sale_date\<close> and
  \<open>expense_date\<close>, and the keys of a purchase-history dictionary are \<open>purchase_amount\<close>
  and \<open>purchase_date\<close>.
\<close>

record 'f Vehicle =
  v_id :: int
  brand :: pystr
  model :: pystr
  year :: int
  purchase_price :: 'f
  expected_sell_price :: 'f
  date_added :: pystr

record 'f SaleRecord =
  sale_id :: int
  vehicle_id :: int
  customer_name :: pystr
  sale_price :: 'f
  sale_date :: pystr

record 'f ExpenseRecord =
  expense_id :: int
  description :: pystr
  amount :: 'f
  expense_date :: pystr

record 'f PurchaseEvent =
  purchase_amount :: 'f
  purchase_date :: pystr

text \<open>
  The session state. \<^verbatim>\<open>total_other_expenses\<close> is not created by \<^verbatim>\<open>init_state\<close>; the
  source reads it with \<^verbatim>\<open>getattr(..., 0.0)\<close>, so it is optional here.
\<close>

record 'f state =
  inventory :: "'f Vehicle list"
  sales :: "'f SaleRecord list"
  expenses :: "'f ExpenseRecord list"
  purchase_history :: "'f PurchaseEvent list"
  next_vehicle_id :: int
  next_sale_id :: int
  next_expense_id :: int
  cumulative_purchase_cost :: 'f
  total_other_expenses :: "'f option"

text \<open>
  What a function shows to the user: the calls of \<^verbatim>\<open>st.success\<close> and \<^verbatim>\<open>st.error\<close>, with the
  numbers that the source formats into the message. None of them raises: after
  \<^verbatim>\<open>st.error\<close> the function returns normally and the session goes on.
\<close>

datatype ui =
    Success_vehicle_added int
  | Error_not_found
  | Success_sold int int
  | Error_remove_failed
  | Success_expense_added int
  | Error_brand_model_empty
  | Error_customer_required
  | Error_description_required

text \<open>
  A Streamlit session starts with an empty \<^verbatim>\<open>session_state\<close>, so on the first run every
  guard of \<^verbatim>\<open>init_state\<close> fires; on later runs none does and the state is kept.
\<close>

definition init_state :: "'f arith \<Rightarrow> 'f state" where
  "init_state A =
     \<lparr>inventory = [], sales = [], expenses = [], purchase_history = [],
      next_vehicle_id = 1, next_sale_id = 1, next_expense_id = 1,
      cumulative_purchase_cost = fzero A, total_other_expenses = None\<rparr>"

section \<open>Inventory operations\<close>

text \<open>
  \<open>now\<close> is the string that \<^verbatim>\<open>datetime.utcnow().isoformat()\<close> returns at the call.
  \<^verbatim>\<open>int(year)\<close> and \<^verbatim>\<open>float(price)\<close> are the identity on the numbers the forms supply.
\<close>

definition add_vehicle ::
  "'f arith \<Rightarrow> 'f state \<Rightarrow> pystr \<Rightarrow> pystr \<Rightarrow> int \<Rightarrow> 'f \<Rightarrow> 'f \<Rightarrow> pystr \<Rightarrow> 'f state \<times> ui" where
  "add_vehicle A st b m y pp esp now =
     (let vid = next_vehicle_id st;
          v = \<lparr>v_id = vid, brand = strip b, model = strip m, year = y,
               purchase_price = pp, expected_sell_price = esp, date_added = now\<rparr>
      in (st\<lparr>inventory := v # inventory st,
              next_vehicle_id := next_vehicle_id st + 1,
              cumulative_purchase_cost := fadd A (cumulative_purchase_cost st) pp,
              purchase_history :=
                purchase_history st @ [\<lparr>purchase_amount = pp, purchase_date = now\<rparr>]\<rparr>,
          Success_vehicle_added vid))"

fun find_in :: "'f Vehicle list \<Rightarrow> int \<Rightarrow> 'f Vehicle option" where
  "find_in [] vid = None"
| "find_in (v # vs) vid = (if v_id v = vid then Some v else find_in vs vid)"

definition find_vehicle_by_id :: "'f state \<Rightarrow> int \<Rightarrow> 'f Vehicle option" where
  "find_vehicle_by_id st vid = find_in (inventory st) vid"

text \<open>\<^verbatim>\<open>pop(i)\<close> at the first index whose vehicle has the id; the flag says whether one was found.\<close>

fun pop_first :: "'f Vehicle list \<Rightarrow> int \<Rightarrow> bool \<times> 'f Vehicle list" where
  "pop_first [] vid = (False, [])"
| "pop_first (v # vs) vid =
     (if v_id v = vid then (True, vs)
      else (case pop_first vs vid of (r, vs') \<Rightarrow> (r, v # vs')))"

definition remove_vehicle_by_id :: "'f state \<Rightarrow> int \<Rightarrow> bool \<times> 'f state" where
  "remove_vehicle_by_id st vid =
     (case pop_first (inventory st) vid of (r, vs) \<Rightarrow> (r, st\<lparr>inventory := vs\<rparr>))"

definition sell_vehicle :: "'f state \<Rightarrow> int \<Rightarrow> pystr \<Rightarrow> 'f \<Rightarrow> pystr \<Rightarrow> 'f state \<times> ui" where
  "sell_vehicle st vid cust price now =
     (case find_vehicle_by_id st vid of
        None \<Rightarrow> (st, Error_not_found)
      | Some vehicle \<Rightarrow>
          (let sid = next_sale_id st;
               rec = \<lparr>sale_id = sid, vehicle_id = vid, customer_name = strip cust,
                      sale_price = price, sale_date = now\<rparr>;
               st1 = st\<lparr>sales := sales st @ [rec]\<rparr>
           in (case remove_vehicle_by_id st1 vid of
                 (removed, st2) \<Rightarrow>
                   if removed
                   then (st2\<lparr>next_sale_id := next_sale_id st2 + 1\<rparr>, Success_sold vid sid)
                   else (st2, Error_remove_failed))))"

definition add_expense :: "'f arith \<Rightarrow> 'f state \<Rightarrow> pystr \<Rightarrow> 'f \<Rightarrow> pystr \<Rightarrow> 'f state \<times> ui" where
  "add_expense A st d a now =
     (let eid = next_expense_id st
      in (st\<lparr>expenses := expenses st @
                [\<lparr>expense_id = eid, description = strip d, amount = a, expense_date = now\<rparr>],
              total_other_expenses :=
                Some (fadd A (case total_other_expenses st of None \<Rightarrow> fzero A | Some t \<Rightarrow> t) a),
              next_expense_id := next_expense_id st + 1\<rparr>,
          Success_expense_added eid))"

section \<open>Form handlers\<close>

text \<open>
  The bodies of the three forms. \<open>submitted\<close> is the value of the submit button; a text
  input is a Python string, and \<^verbatim>\<open>not s\<close> holds exactly for the empty string. The check
  is made on the text as entered, before \<^verbatim>\<open>strip\<close> is applied inside the operation.
\<close>

definition page_add_vehicle ::
  "'f arith \<Rightarrow> 'f state \<Rightarrow> bool \<Rightarrow> pystr \<Rightarrow> pystr \<Rightarrow> int \<Rightarrow> 'f \<Rightarrow> 'f \<Rightarrow> pystr
     \<Rightarrow> 'f state \<times> ui option" where
  "page_add_vehicle A st submitted b m y pp esp now =
     (if submitted then
        (if b = [] \<or> m = [] then (st, Some Error_brand_model_empty)
         else (case add_vehicle A st b m y pp esp now of (st', msg) \<Rightarrow> (st', Some msg)))
      else (st, None))"

definition page_sell_vehicle ::
  "'f state \<Rightarrow> bool \<Rightarrow> int \<Rightarrow> pystr \<Rightarrow> 'f \<Rightarrow> pystr \<Rightarrow> 'f state \<times> ui option" where
  "page_sell_vehicle st submitted vid customer price now =
     (if submitted then
        (if customer = [] then (st, Some Error_customer_required)
         else (case sell_vehicle st vid customer price now of (st', msg) \<Rightarrow> (st', Some msg)))
      else (st, None))"

definition page_expenses ::
  "'f arith \<Rightarrow> 'f state \<Rightarrow> bool \<Rightarrow> pystr \<Rightarrow> 'f \<Rightarrow> pystr \<Rightarrow> 'f state \<times> ui option" where
  "page_expenses A st submitted desc a now =
     (if submitted then
        (if desc = [] then (st, Some Error_description_required)
         else (case add_expense A st desc a now of (st', msg) \<Rightarrow> (st', Some msg)))
      else (st, None))"

section \<open>Sessions\<close>

text \<open>
  A session is a sequence of calls of the three mutating operations, each with its
  arguments and the clock string of the moment. No other function of the source writes
  to the session state after \<^verbatim>\<open>init_state\<close>.
\<close>

datatype 'f op =
    AddVehicle pystr pystr int 'f 'f pystr
  | SellVehicle int pystr 'f pystr
  | AddExpense pystr 'f pystr

fun exec :: "'f arith \<Rightarrow> 'f state \<Rightarrow> 'f op \<Rightarrow> 'f state \<times> ui" where
  "exec A st (AddVehicle b m y pp esp now) = add_vehicle A st b m y pp esp now"
| "exec A st (SellVehicle vid cust price now) = sell_vehicle st vid cust price now"
| "exec A st (AddExpense d a now) = add_expense A st d a now"

fun run :: "'f arith \<Rightarrow> 'f state \<Rightarrow> 'f op list \<Rightarrow> 'f state" where
  "run A st [] = st"
| "run A st (x # xs) = run A (fst (exec A st x)) xs"

text \<open>The messages of a session, in order.\<close>

fun run_log :: "'f arith \<Rightarrow> 'f state \<Rightarrow> 'f op list \<Rightarrow> ui list" where
  "run_log A st [] = []"
| "run_log A st (x # xs) = snd (exec A st x) # run_log A (fst (exec A st x)) xs"

text \<open>The vehicle identifiers that the session's \<^verbatim>\<open>add_vehicle\<close> calls reported, in order.\<close>

fun added_ids :: "ui list \<Rightarrow> int list" where
  "added_ids [] = []"
| "added_ids (Success_vehicle_added vid # ms) = vid # added_ids ms"
| "added_ids (_ # ms) = added_ids ms"

definition reachable :: "'f arith \<Rightarrow> 'f state \<Rightarrow> bool" where
  "reachable A st \<longleftrightarrow> (\<exists>ops. st = run A (init_state A) ops)"

section \<open>Aggregation for the dashboard\<close>

text \<open>
  Of a \<^verbatim>\<open>datetime\<close> the source reads the year and the month only. The month of a
  \<^verbatim>\<open>datetime\<close> is one of twelve values, numbered from 1.
\<close>

datatype month = Jan | Feb | Mar | Apr | May | Jun | Jul | Aug | Sep | Oct | Nov | Dec

fun month_num :: "month \<Rightarrow> nat" where
  "month_num Jan = 1" | "month_num Feb = 2" | "month_num Mar = 3" | "month_num Apr = 4"
| "month_num May = 5" | "month_num Jun = 6" | "month_num Jul = 7" | "month_num Aug = 8"
| "month_num Sep = 9" | "month_num Oct = 10" | "month_num Nov = 11" | "month_num Dec = 12"

type_synonym ym = "int \<times> month"

text \<open>
  \<^verbatim>\<open>datetime.fromisoformat\<close> and the clock are library code. The parser is the parameter
  \<open>fromiso\<close>, \<open>None\<close> where the library raises. The clock is read once for each date
  string that does not parse: \<open>utcnow k\<close> is the year and month of the read number \<open>k\<close>
  of a call of the aggregation, and the number of reads made so far is passed along.
\<close>

definition month_key_from_iso ::
  "(pystr \<Rightarrow> ym option) \<Rightarrow> (nat \<Rightarrow> ym) \<Rightarrow> nat \<Rightarrow> pystr \<Rightarrow> ym \<times> nat" where
  "month_key_from_iso fromiso utcnow k iso_dt =
     (case fromiso iso_dt of Some dt \<Rightarrow> (dt, k) | None \<Rightarrow> (utcnow k, Suc k))"

text \<open>The index \<^verbatim>\<open>m-1\<close> of a month, and \<^verbatim>\<open>xs[m-1] += a\<close> on a list of twelve.\<close>

definition idx :: "month \<Rightarrow> nat" where
  "idx m = month_num m - 1"

definition bump :: "'f arith \<Rightarrow> 'f list \<Rightarrow> month \<Rightarrow> 'f \<Rightarrow> 'f list" where
  "bump A xs m a = xs[idx m := fadd A (xs ! idx m) a]"

fun credit_loop ::
  "'f arith \<Rightarrow> (pystr \<Rightarrow> ym option) \<Rightarrow> (nat \<Rightarrow> ym) \<Rightarrow> int \<Rightarrow> 'f SaleRecord list
     \<Rightarrow> 'f list \<times> nat \<Rightarrow> 'f list \<times> nat" where
  "credit_loop A fromiso utcnow yr [] (credit_month, k) = (credit_month, k)"
| "credit_loop A fromiso utcnow yr (s # ss) (credit_month, k) =
     (case month_key_from_iso fromiso utcnow k (sale_date s) of ((y, m), k') \<Rightarrow>
        credit_loop A fromiso utcnow yr ss
          (if y = yr then bump A credit_month m (sale_price s) else credit_month, k'))"

fun expense_loop ::
  "'f arith \<Rightarrow> (pystr \<Rightarrow> ym option) \<Rightarrow> (nat \<Rightarrow> ym) \<Rightarrow> int \<Rightarrow> 'f ExpenseRecord list
     \<Rightarrow> 'f list \<times> nat \<Rightarrow> 'f list \<times> nat" where
  "expense_loop A fromiso utcnow yr [] (debit_month, k) = (debit_month, k)"
| "expense_loop A fromiso utcnow yr (e # es) (debit_month, k) =
     (case month_key_from_iso fromiso utcnow k (expense_date e) of ((y, m), k') \<Rightarrow>
        expense_loop A fromiso utcnow yr es
          (if y = yr then bump A debit_month m (amount e) else debit_month, k'))"

fun purchase_loop ::
  "'f arith \<Rightarrow> (pystr \<Rightarrow> ym option) \<Rightarrow> (nat \<Rightarrow> ym) \<Rightarrow> int \<Rightarrow> 'f PurchaseEvent list
     \<Rightarrow> 'f list \<times> nat \<Rightarrow> 'f list \<times> nat" where
  "purchase_loop A fromiso utcnow yr [] (debit_month, k) = (debit_month, k)"
| "purchase_loop A fromiso utcnow yr (p # ps) (debit_month, k) =
     (case month_key_from_iso fromiso utcnow k (purchase_date p) of ((y, m), k') \<Rightarrow>
        purchase_loop A fromiso utcnow yr ps
          (if y = yr then bump A debit_month m (purchase_amount p) else debit_month, k'))"

definition monthly_aggregation_for_year ::
  "'f arith \<Rightarrow> (pystr \<Rightarrow> ym option) \<Rightarrow> (nat \<Rightarrow> ym) \<Rightarrow> 'f state \<Rightarrow> int \<Rightarrow> 'f list \<times> 'f list" where
  "monthly_aggregation_for_year A fromiso utcnow st yr =
     (let debit_month = replicate 12 (fzero A);
          credit_month = replicate 12 (fzero A);
          (credit_month, k) = credit_loop A fromiso utcnow yr (sales st) (credit_month, 0);
          (debit_month, k) = expense_loop A fromiso utcnow yr (expenses st) (debit_month, k);
          (debit_month, k) =
             purchase_loop A fromiso utcnow yr (purchase_history st) (debit_month, k)
      in (debit_month, credit_month))"

definition totals_from_monthly :: "'f arith \<Rightarrow> 'f list \<Rightarrow> 'f list \<Rightarrow> 'f \<times> 'f" where
  "totals_from_monthly A debit_month credit_month = (fsum A debit_month, fsum A credit_month)"

text \<open>The balance line of \<^verbatim>\<open>dashboard_page\<close>.\<close>

definition adjusted_balance :: "'f arith \<Rightarrow> 'f \<Rightarrow> 'f \<Rightarrow> 'f \<Rightarrow> 'f" where
  "adjusted_balance A starting_balance total_debit total_credit =
     fadd A starting_balance (fsub A total_credit total_debit)"

section \<open>Financial summary\<close>

datatype status = PROFIT | LOSS | BREAK_EVEN

record 'f summary =
  cum_purchase :: 'f
  revenue :: 'f
  expenses_total :: 'f
  profit :: 'f
  verdict :: status

text \<open>\<^verbatim>\<open>profit > 0\<close> and \<^verbatim>\<open>profit < 0\<close> compare the float with the integer 0.\<close>

definition page_financial_summary :: "'f arith \<Rightarrow> 'f state \<Rightarrow> 'f summary" where
  "page_financial_summary A st =
     (let cp = cumulative_purchase_cost st;
          rev = fsum A (map sale_price (sales st));
          ex = fsum A (map amount (expenses st));
          pr = fsub A rev (fadd A cp ex)
      in \<lparr>cum_purchase = cp, revenue = rev, expenses_total = ex, profit = pr,
          verdict = (if fless A (fzero A) pr then PROFIT
                     else if fless A pr (fzero A) then LOSS else BREAK_EVEN)\<rparr>)"

section \<open>Specification functions\<close>

text \<open>
  \<open>acc_sum\<close> is the sum that \<^verbatim>\<open>+=\<close> accumulates: the elements added one by one, left
  to right, to \<^verbatim>\<open>0.0\<close>.
\<close>

definition acc_sum :: "'f arith \<Rightarrow> 'f list \<Rightarrow> 'f" where
  "acc_sum A xs = foldl (fadd A) (fzero A) xs"

text \<open>
  The bucketing key of a date string when every read of the clock gives \<open>now\<close>: the
  parsed year and month, or \<open>now\<close> when the string does not parse.
\<close>

definition key_at :: "(pystr \<Rightarrow> ym option) \<Rightarrow> ym \<Rightarrow> pystr \<Rightarrow> ym" where
  "key_at fromiso now iso_dt = (case fromiso iso_dt of Some dt \<Rightarrow> dt | None \<Rightarrow> now)"

text \<open>
  \<open>credit_for\<close> accumulates the prices of the sales whose key is the given year and
  month. \<open>debit_for\<close> accumulates the amounts of the expenses with that key and then, on
  top of them, the amounts of the purchase events with that key.
\<close>

definition credit_for :: "'f arith \<Rightarrow> (pystr \<Rightarrow> ym) \<Rightarrow> 'f state \<Rightarrow> int \<Rightarrow> month \<Rightarrow> 'f" where
  "credit_for A key st yr m =
     acc_sum A (map sale_price (filter (\<lambda>s. key (sale_date s) = (yr, m)) (sales st)))"

definition debit_for :: "'f arith \<Rightarrow> (pystr \<Rightarrow> ym) \<Rightarrow> 'f state \<Rightarrow> int \<Rightarrow> month \<Rightarrow> 'f" where
  "debit_for A key st yr m =
     acc_sum A
       (map amount (filter (\<lambda>e. key (expense_date e) = (yr, m)) (expenses st)) @
        map purchase_amount
          (filter (\<lambda>p. key (purchase_date p) = (yr, m)) (purchase_history st)))"

text \<open>
  The same sums in the words of the specification. \<open>credit_parsed\<close> is over the sales
  whose date string parses to the year and month: a sale whose date does not parse is
  in no bucket. \<open>debit_split\<close> is the sum of the expenses plus the sum of the purchase
  events, each accumulated on its own.
\<close>

definition credit_parsed ::
  "'f arith \<Rightarrow> (pystr \<Rightarrow> ym option) \<Rightarrow> 'f state \<Rightarrow> int \<Rightarrow> month \<Rightarrow> 'f" where
  "credit_parsed A fromiso st yr m =
     acc_sum A (map sale_price
       (filter (\<lambda>s. fromiso (sale_date s) = Some (yr, m)) (sales st)))"

definition debit_split :: "'f arith \<Rightarrow> (pystr \<Rightarrow> ym) \<Rightarrow> 'f state \<Rightarrow> int \<Rightarrow> month \<Rightarrow> 'f" where
  "debit_split A key st yr m =
     fadd A
       (acc_sum A (map amount (filter (\<lambda>e. key (expense_date e) = (yr, m)) (expenses st))))
       (acc_sum A (map purchase_amount
          (filter (\<lambda>p. key (purchase_date p) = (yr, m)) (purchase_history st))))"

text \<open>Every date string in the store parses.\<close>

definition all_dates_parse :: "(pystr \<Rightarrow> ym option) \<Rightarrow> 'f state \<Rightarrow> bool" where
  "all_dates_parse fromiso st \<longleftrightarrow>
     list_all (\<lambda>s. fromiso (sale_date s) \<noteq> None) (sales st) \<and>
     list_all (\<lambda>e. fromiso (expense_date e) \<noteq> None) (expenses st) \<and>
     list_all (\<lambda>p. fromiso (purchase_date p) \<noteq> None) (purchase_history st)"

text \<open>The accumulated sum of all purchase events.\<close>

definition purchase_total :: "'f arith \<Rightarrow> 'f state \<Rightarrow> 'f" where
  "purchase_total A st = acc_sum A (map purchase_amount (purchase_history st))"

text \<open>The invariant of the identifiers: what is in stock, what is sold, and the counter.\<close>

definition ids_inv :: "'f state \<Rightarrow> bool" where
  "ids_inv st \<longleftrightarrow>
     distinct (map v_id (inventory st)) \<and>
     (\<forall>v \<in> set (inventory st). v_id v < next_vehicle_id st) \<and>
     distinct (map vehicle_id (sales st)) \<and>
     (\<forall>s \<in> set (sales st).
        vehicle_id s < next_vehicle_id st \<and> vehicle_id s \<notin> v_id ` set (inventory st))"

section \<open>Arithmetic, strings and a parser for the examples\<close>

text \<open>
  The examples compute in binary64 on integer values. \<open>round53\<close> rounds an integer to
  53 significant bits, ties to even, which is the rounding of IEEE 754 on a sum or
  difference of two integer-valued floats below the overflow threshold; the integers
  that it leaves unchanged are the integer-valued floats. \<open>fsum\<close> is the addition from
  0, left to right, of CPython before 3.12; on the lists of the examples the
  compensated sum of the later versions returns the same value.
\<close>

fun excess :: "nat \<Rightarrow> nat" where
  "excess n = (if n < 9007199254740992 then 0 else Suc (excess (n div 2)))"

declare excess.simps [simp del]

definition round53 :: "int \<Rightarrow> int" where
  "round53 x =
     (let a = \<bar>x\<bar>; k = excess (nat a); q = a div 2 ^ k; r = a mod 2 ^ k
      in sgn x * ((if 2 ^ k < 2 * r \<or> (2 * r = 2 ^ k \<and> odd q) then q + 1 else q) * 2 ^ k))"

definition binary64 :: "int arith" where
  "binary64 =
     \<lparr>fadd = (\<lambda>x y. round53 (x + y)), fsub = (\<lambda>x y. round53 (x - y)), fzero = 0,
      fless = (\<lambda>x y. x < y), fsum = foldl (\<lambda>x y. round53 (x + y)) 0\<rparr>"

text \<open>A string literal as a Python string.\<close>

definition py :: "string \<Rightarrow> pystr" where
  "py s = map of_char s"

text \<open>
  \<open>iso_prefix\<close> reads the year and the month at the front of a string, four digits, a
  dash, a month from 01 to 12 and a dash. On a string that \<^verbatim>\<open>datetime.isoformat()\<close>
  produces this is the year and month that \<^verbatim>\<open>datetime.fromisoformat\<close> returns. The
  examples use such strings and the string \<^verbatim>\<open>not-a-date\<close>, on which the library raises
  and \<open>iso_prefix\<close> returns \<open>None\<close>.
\<close>

definition digit :: "nat \<Rightarrow> nat option" where
  "digit c = (if 48 \<le> c \<and> c \<le> 57 then Some (c - 48) else None)"

fun digits :: "pystr \<Rightarrow> nat \<Rightarrow> nat option" where
  "digits [] acc = Some acc"
| "digits (c # cs) acc = (case digit c of None \<Rightarrow> None | Some d \<Rightarrow> digits cs (10 * acc + d))"

definition month_of :: "nat \<Rightarrow> month option" where
  "month_of n =
     (if n = 1 then Some Jan else if n = 2 then Some Feb else if n = 3 then Some Mar
      else if n = 4 then Some Apr else if n = 5 then Some May else if n = 6 then Some Jun
      else if n = 7 then Some Jul else if n = 8 then Some Aug else if n = 9 then Some Sep
      else if n = 10 then Some Oct else if n = 11 then Some Nov else if n = 12 then Some Dec
      else None)"

definition iso_prefix :: "pystr \<Rightarrow> ym option" where
  "iso_prefix s =
     (if length s < 8 \<or> s ! 4 \<noteq> 45 \<or> s ! 7 \<noteq> 45 then None
      else (case (digits (take 4 s) 0, digits (take 2 (drop 5 s)) 0) of
              (Some y, Some m) \<Rightarrow>
                (case month_of m of None \<Rightarrow> None | Some mo \<Rightarrow> Some (int y, mo))
            | _ \<Rightarrow> None))"

text \<open>A clock that shows the same year and month at every read.\<close>

definition clock_at :: "ym \<Rightarrow> nat \<Rightarrow> ym" where
  "clock_at now k = now"

section \<open>Example stores\<close>

text \<open>A store with one sale whose date string is not a date.\<close>

definition bad_sale_store :: "int state" where
  "bad_sale_store = (init_state binary64)\<lparr>sales :=
     [\<lparr>sale_id = 1, vehicle_id = 1, customer_name = py ''Alice'', sale_price = 9000,
       sale_date = py ''not-a-date''\<rparr>]\<rparr>"

text \<open>A store with one expense whose date string is not a date.\<close>

definition bad_expense_store :: "int state" where
  "bad_expense_store = (init_state binary64)\<lparr>expenses :=
     [\<lparr>expense_id = 1, description = py ''Detailing'', amount = 150,
       expense_date = py ''not-a-date''\<rparr>]\<rparr>"

text \<open>The scenario of the specification: a purchase, its sale, and an expense.\<close>

definition scenario :: "int state" where
  "scenario = run binary64 (init_state binary64)
     [AddVehicle (py ''Toyota'') (py ''Corolla'') 2020 10000 12000 (py ''2024-01-15T10:00:00''),
      SellVehicle 1 (py ''Alice'') 11000 (py ''2024-02-01T09:30:00''),
      AddExpense (py ''Detailing'') 150 (py ''2024-02-03T12:00:00'')]"

text \<open>One vehicle in stock.\<close>

definition one_vehicle :: "int state" where
  "one_vehicle =
     fst (add_vehicle binary64 (init_state binary64) (py ''Toyota'') (py ''Corolla'') 2020
            10000 12000 (py ''2024-01-15T10:00:00''))"

text \<open>
  Three purchases: one of \<open>2^53\<close> in January 2024 and two of 1 in February 2024.
\<close>

definition three_purchases :: "int state" where
  "three_purchases = run binary64 (init_state binary64)
     [AddVehicle (py ''Toyota'') (py ''Corolla'') 2020 9007199254740992 0 (py ''2024-01-15T10:00:00''),
      AddVehicle (py ''Honda'') (py ''Civic'') 2021 1 0 (py ''2024-02-01T09:30:00''),
      AddVehicle (py ''Kia'') (py ''Rio'') 2022 1 0 (py ''2024-02-03T12:00:00'')]"

text \<open>
  An expense of \<open>2^53\<close> and then two purchases of 1, all in January 2024.
\<close>

definition rounding_store :: "int state" where
  "rounding_store = run binary64 (init_state binary64)
     [AddExpense (py ''Hall'') 9007199254740992 (py ''2024-01-15T10:00:00''),
      AddVehicle (py ''Honda'') (py ''Civic'') 2021 1 0 (py ''2024-01-15T10:00:00''),
      AddVehicle (py ''Kia'') (py ''Rio'') 2022 1 0 (py ''2024-01-15T10:00:00'')]"

section \<open>Lookup and removal\<close>

lemma find_in_None_iff: "find_in vs vid = None \<longleftrightarrow> vid \<notin> v_id ` set vs"
  by (induction vs) auto

lemma pop_first_flag: "fst (pop_first vs vid) \<longleftrightarrow> vid \<in> v_id ` set vs"
  by (induction vs) (auto split: prod.splits)

lemma pop_first_subset: "set (snd (pop_first vs vid)) \<subseteq> set vs"
  by (induction vs) (auto split: prod.splits)

lemma pop_first_distinct:
  "distinct (map v_id vs) \<Longrightarrow>
   distinct (map v_id (snd (pop_first vs vid))) \<and> vid \<notin> v_id ` set (snd (pop_first vs vid))"
proof (induction vs)
  case Nil
  then show ?case by simp
next
  case (Cons v vs)
  show ?case
  proof (cases "v_id v = vid")
    case True
    with Cons.prems show ?thesis by auto
  next
    case False
    obtain r vs' where p: "pop_first vs vid = (r, vs')" by (cases "pop_first vs vid")
    from pop_first_subset [of vs vid] p have sub: "set vs' \<subseteq> set vs" by simp
    from Cons p have "distinct (map v_id vs')" "vid \<notin> v_id ` set vs'" by auto
    moreover from Cons.prems sub have "v_id v \<notin> v_id ` set vs'" by auto
    ultimately show ?thesis using False p by auto
  qed
qed

section \<open>The fields that each operation touches\<close>

lemma sell_vehicle_found:
  assumes "vid \<in> v_id ` set (inventory st)"
  shows "sell_vehicle st vid cust price now =
     (st\<lparr>sales := sales st @
          [\<lparr>sale_id = next_sale_id st, vehicle_id = vid, customer_name = strip cust,
            sale_price = price, sale_date = now\<rparr>],
         inventory := snd (pop_first (inventory st) vid),
         next_sale_id := next_sale_id st + 1\<rparr>,
      Success_sold vid (next_sale_id st))"
proof -
  from assms obtain v where f: "find_in (inventory st) vid = Some v"
    using find_in_None_iff [of "inventory st" vid] by (cases "find_in (inventory st) vid") auto
  from assms have "fst (pop_first (inventory st) vid)" by (simp add: pop_first_flag)
  then obtain vs where p: "pop_first (inventory st) vid = (True, vs)"
    by (cases "pop_first (inventory st) vid") auto
  show ?thesis
    by (simp add: sell_vehicle_def find_vehicle_by_id_def f remove_vehicle_by_id_def p Let_def)
qed

lemma sell_vehicle_absent:
  assumes "vid \<notin> v_id ` set (inventory st)"
  shows "sell_vehicle st vid cust price now = (st, Error_not_found)"
proof -
  from assms have "find_in (inventory st) vid = None"
    by (simp add: find_in_None_iff)
  then show ?thesis
    by (simp add: sell_vehicle_def find_vehicle_by_id_def)
qed

lemma sell_vehicle_keeps:
  "purchase_history (fst (sell_vehicle st vid cust price now)) = purchase_history st"
  "cumulative_purchase_cost (fst (sell_vehicle st vid cust price now)) = cumulative_purchase_cost st"
  "next_vehicle_id (fst (sell_vehicle st vid cust price now)) = next_vehicle_id st"
  "expenses (fst (sell_vehicle st vid cust price now)) = expenses st"
  "next_expense_id (fst (sell_vehicle st vid cust price now)) = next_expense_id st"
  by (cases "vid \<in> v_id ` set (inventory st)";
      simp add: sell_vehicle_found sell_vehicle_absent)+

lemma sell_vehicle_inventory_subset:
  "set (inventory (fst (sell_vehicle st vid cust price now))) \<subseteq> set (inventory st)"
  using pop_first_subset [of "inventory st" vid]
  by (cases "vid \<in> v_id ` set (inventory st)")
     (simp_all add: sell_vehicle_found sell_vehicle_absent)

lemma sell_vehicle_no_add:
  "snd (sell_vehicle st vid cust price now) \<noteq> Success_vehicle_added k"
  by (cases "vid \<in> v_id ` set (inventory st)")
     (simp_all add: sell_vehicle_found sell_vehicle_absent)


section \<open>The identifier invariant\<close>

lemma ids_inv_init: "ids_inv (init_state A)"
  by (simp add: ids_inv_def init_state_def)

lemma ids_inv_add_vehicle:
  assumes "ids_inv st"
  shows "ids_inv (fst (add_vehicle A st b m y pp esp now))"
  using assms by (fastforce simp: ids_inv_def add_vehicle_def Let_def)

lemma ids_inv_add_expense:
  assumes "ids_inv st"
  shows "ids_inv (fst (add_expense A st d a now))"
  using assms by (simp add: ids_inv_def add_expense_def Let_def)

lemma ids_inv_sell_vehicle:
  assumes "ids_inv st"
  shows "ids_inv (fst (sell_vehicle st vid cust price now))"
proof (cases "vid \<in> v_id ` set (inventory st)")
  case False
  with assms show ?thesis by (simp add: sell_vehicle_absent)
next
  case True
  let ?vs = "snd (pop_first (inventory st) vid)"
  from assms have d: "distinct (map v_id (inventory st))" by (simp add: ids_inv_def)
  from pop_first_distinct [OF d, of vid]
  have d': "distinct (map v_id ?vs)" and gone: "vid \<notin> v_id ` set ?vs" by simp_all
  have sub: "set ?vs \<subseteq> set (inventory st)" by (rule pop_first_subset)
  from assms True have lt: "vid < next_vehicle_id st" by (auto simp: ids_inv_def)
  have fresh: "vid \<notin> vehicle_id ` set (sales st)"
  proof
    assume "vid \<in> vehicle_id ` set (sales st)"
    then obtain s where "s \<in> set (sales st)" "vehicle_id s = vid" by auto
    with assms have "vid \<notin> v_id ` set (inventory st)" by (auto simp: ids_inv_def)
    with True show False by simp
  qed
  from assms have bound: "\<forall>v \<in> set ?vs. v_id v < next_vehicle_id st"
    using sub by (auto simp: ids_inv_def)
  from assms have sold: "\<forall>s \<in> set (sales st).
      vehicle_id s < next_vehicle_id st \<and> vehicle_id s \<notin> v_id ` set ?vs"
    using sub by (auto simp: ids_inv_def)
  from assms have ds: "distinct (map vehicle_id (sales st))" by (simp add: ids_inv_def)
  show ?thesis
    using d' gone lt fresh bound sold ds
    by (simp add: sell_vehicle_found [OF True] ids_inv_def)
qed

lemma ids_inv_exec: "ids_inv st \<Longrightarrow> ids_inv (fst (exec A st x))"
  by (cases x) (simp_all add: ids_inv_add_vehicle ids_inv_sell_vehicle ids_inv_add_expense)

lemma ids_inv_run: "ids_inv st \<Longrightarrow> ids_inv (run A st xs)"
  by (induction xs arbitrary: st) (simp_all add: ids_inv_exec)

lemma reachable_ids_inv: "reachable A st \<Longrightarrow> ids_inv st"
  by (auto simp: reachable_def ids_inv_run ids_inv_init)

lemma run_append: "run A st (xs @ ys) = run A (run A st xs) ys"
  by (induction xs arbitrary: st) simp_all

lemma reachable_run: "reachable A st \<Longrightarrow> reachable A (run A st xs)"
  by (metis reachable_def run_append)

lemma reachable_exec: "reachable A st \<Longrightarrow> reachable A (fst (exec A st x))"
  using reachable_run [of A st "[x]"] by simp

section \<open>The examples, evaluated\<close>

lemma excess_small: "n < 9007199254740992 \<Longrightarrow> excess n = 0"
  by (subst excess.simps) simp

lemma excess_big: "\<not> n < 9007199254740992 \<Longrightarrow> excess n = Suc (excess (n div 2))"
  by (subst excess.simps) simp

lemma round53_examples:
  "round53 0 = 0" "round53 1 = 1" "round53 2 = 2" "round53 150 = 150" "round53 850 = 850"
  "round53 9000 = 9000" "round53 10000 = 10000" "round53 10150 = 10150"
  "round53 11000 = 11000" "round53 (- 200) = - 200" "round53 (- 100) = - 100"
  "round53 9007199254740992 = 9007199254740992"
  "round53 9007199254740993 = 9007199254740992"
  "round53 9007199254740994 = 9007199254740994"
  by (simp_all add: round53_def excess_small excess_big Let_def)

lemma binary64_simps:
  "fadd binary64 x y = round53 (x + y)" "fsub binary64 x y = round53 (x - y)"
  "fzero binary64 = 0" "fless binary64 x y \<longleftrightarrow> x < y"
  "fsum binary64 xs = foldl (\<lambda>x y. round53 (x + y)) 0 xs"
  by (simp_all add: binary64_def)

lemma replicate12: "replicate 12 x = [x, x, x, x, x, x, x, x, x, x, x, x]"
  by (simp add: eval_nat_numeral)

lemma iso_examples:
  "iso_prefix (py ''2024-01-15T10:00:00'') = Some (2024, Jan)"
  "iso_prefix (py ''2024-02-01T09:30:00'') = Some (2024, Feb)"
  "iso_prefix (py ''2024-02-03T12:00:00'') = Some (2024, Feb)"
  "iso_prefix (py ''not-a-date'') = None"
  by (simp_all add: iso_prefix_def digit_def month_of_def py_def)

lemma strip_examples:
  "strip (py ''Toyota'') = py ''Toyota''" "strip (py ''Corolla'') = py ''Corolla''"
  "strip (py ''Honda'') = py ''Honda''" "strip (py ''Civic'') = py ''Civic''"
  "strip (py ''Kia'') = py ''Kia''" "strip (py ''Rio'') = py ''Rio''"
  "strip (py ''Alice'') = py ''Alice''" "strip (py ''Bob'') = py ''Bob''"
  "strip (py ''Detailing'') = py ''Detailing''"
  "strip (py ''  '') = []" "strip [160, 8195] = []" "py ''  '' \<noteq> []" "py ''Corolla'' \<noteq> []"
  by (simp_all add: strip_def is_space_def py_def)

lemma one_vehicle_eval:
  "one_vehicle =
     \<lparr>inventory = [\<lparr>v_id = 1, brand = py ''Toyota'', model = py ''Corolla'', year = 2020,
                    purchase_price = 10000, expected_sell_price = 12000,
                    date_added = py ''2024-01-15T10:00:00''\<rparr>],
      sales = [], expenses = [],
      purchase_history =
        [\<lparr>purchase_amount = 10000, purchase_date = py ''2024-01-15T10:00:00''\<rparr>],
      next_vehicle_id = 2, next_sale_id = 1, next_expense_id = 1,
      cumulative_purchase_cost = 10000, total_other_expenses = None\<rparr>"
  by (simp add: one_vehicle_def init_state_def add_vehicle_def strip_examples Let_def
      binary64_simps round53_examples)

lemma scenario_eval:
  "scenario =
     \<lparr>inventory = [],
      sales = [\<lparr>sale_id = 1, vehicle_id = 1, customer_name = py ''Alice'', sale_price = 11000,
                sale_date = py ''2024-02-01T09:30:00''\<rparr>],
      expenses = [\<lparr>expense_id = 1, description = py ''Detailing'', amount = 150,
                   expense_date = py ''2024-02-03T12:00:00''\<rparr>],
      purchase_history =
        [\<lparr>purchase_amount = 10000, purchase_date = py ''2024-01-15T10:00:00''\<rparr>],
      next_vehicle_id = 2, next_sale_id = 2, next_expense_id = 2,
      cumulative_purchase_cost = 10000, total_other_expenses = Some 150\<rparr>"
  by (simp add: scenario_def init_state_def add_vehicle_def sell_vehicle_def
      find_vehicle_by_id_def remove_vehicle_by_id_def add_expense_def strip_examples Let_def
      binary64_simps round53_examples)

lemma three_purchases_eval:
  "cumulative_purchase_cost three_purchases = 9007199254740992"
  "expenses three_purchases = []" "sales three_purchases = []"
  "purchase_history three_purchases =
     [\<lparr>purchase_amount = 9007199254740992, purchase_date = py ''2024-01-15T10:00:00''\<rparr>,
      \<lparr>purchase_amount = 1, purchase_date = py ''2024-02-01T09:30:00''\<rparr>,
      \<lparr>purchase_amount = 1, purchase_date = py ''2024-02-03T12:00:00''\<rparr>]"
  by (simp_all add: three_purchases_def init_state_def add_vehicle_def Let_def
      binary64_simps round53_examples)

lemma reachable_one_vehicle: "reachable binary64 one_vehicle"
proof -
  have "one_vehicle = run binary64 (init_state binary64)
    [AddVehicle (py ''Toyota'') (py ''Corolla'') 2020 10000 12000 (py ''2024-01-15T10:00:00'')]"
    by (simp add: one_vehicle_def)
  then show ?thesis unfolding reachable_def by blast
qed

lemma reachable_scenario: "reachable binary64 scenario"
  unfolding reachable_def scenario_def by blast

lemma reachable_three_purchases: "reachable binary64 three_purchases"
  unfolding reachable_def three_purchases_def by blast

section \<open>Selling an unknown identifier\<close>

text \<open>
  C4. When no vehicle in stock has the identifier, the lookup returns nothing and
  \<^verbatim>\<open>sell_vehicle\<close> reports "Vehicle ID not found in inventory." and returns the store as
  it was: no sale appended, no vehicle removed, no counter changed. The form that calls
  it leaves the store unchanged too.
\<close>

theorem sell_vehicle_not_found:
  assumes "vid \<notin> v_id ` set (inventory st)"
  shows "find_vehicle_by_id st vid = None \<and>
         sell_vehicle st vid cust price now = (st, Error_not_found) \<and>
         fst (page_sell_vehicle st submitted vid cust price now) = st"
  using assms sell_vehicle_absent [OF assms, of cust price now]
  by (simp add: find_vehicle_by_id_def find_in_None_iff page_sell_vehicle_def)

theorem sell_vehicle_not_found_witness:
  "(7::int) \<notin> v_id ` set (inventory one_vehicle) \<and>
   sell_vehicle one_vehicle 7 (py ''Alice'') 11000 (py ''2024-02-01T09:30:00'') =
     (one_vehicle, Error_not_found)"
proof -
  have h: "(7::int) \<notin> v_id ` set (inventory one_vehicle)"
    by (simp add: one_vehicle_eval)
  show ?thesis
    using h sell_vehicle_not_found [OF h, of "py ''Alice''" 11000 "py ''2024-02-01T09:30:00''"]
    by simp
qed

section \<open>Monthly aggregation\<close>

lemma idx_eq: "idx m = idx m' \<longleftrightarrow> m = m'"
  by (cases m; cases m') (simp_all add: idx_def)

lemma idx_less: "idx m < 12"
  by (cases m) (simp_all add: idx_def)

lemma length_bump: "length (bump A xs m a) = length xs"
  by (simp add: bump_def)

lemma nth_bump:
  "length xs = 12 \<Longrightarrow>
   bump A xs m a ! idx m' = (if m = m' then fadd A (xs ! idx m') a else xs ! idx m')"
  using idx_less [of m] by (auto simp: bump_def idx_eq)

lemma key_fst:
  "fromiso d \<noteq> None \<or> (\<forall>k. utcnow k = now) \<Longrightarrow>
   fst (month_key_from_iso fromiso utcnow k d) = key_at fromiso now d"
  by (auto simp: month_key_from_iso_def key_at_def split: option.splits)

lemma length_credit_loop:
  "length (fst (credit_loop A fromiso utcnow yr ss (cm, k))) = length cm"
  by (induction ss arbitrary: cm k) (auto simp: length_bump split: prod.splits)

lemma length_expense_loop:
  "length (fst (expense_loop A fromiso utcnow yr es (dm, k))) = length dm"
  by (induction es arbitrary: dm k) (auto simp: length_bump split: prod.splits)

lemma length_purchase_loop:
  "length (fst (purchase_loop A fromiso utcnow yr ps (dm, k))) = length dm"
  by (induction ps arbitrary: dm k) (auto simp: length_bump split: prod.splits)

lemma nth_credit_loop:
  "list_all (\<lambda>s. fromiso (sale_date s) \<noteq> None \<or> (\<forall>k. utcnow k = now)) ss \<Longrightarrow>
   length cm = 12 \<Longrightarrow>
   fst (credit_loop A fromiso utcnow yr ss (cm, k)) ! idx m =
     foldl (fadd A) (cm ! idx m)
       (map sale_price (filter (\<lambda>s. key_at fromiso now (sale_date s) = (yr, m)) ss))"
proof (induction ss arbitrary: cm k)
  case Nil
  then show ?case by simp
next
  case (Cons s ss)
  obtain y mo k' where mk: "month_key_from_iso fromiso utcnow k (sale_date s) = ((y, mo), k')"
    by (metis surj_pair)
  from Cons.prems(1) have "fromiso (sale_date s) \<noteq> None \<or> (\<forall>k. utcnow k = now)" by simp
  with key_fst [of fromiso "sale_date s" utcnow now k] mk have key: "key_at fromiso now (sale_date s) = (y, mo)"
    by simp
  from Cons.prems(1) have rest:
    "list_all (\<lambda>s. fromiso (sale_date s) \<noteq> None \<or> (\<forall>k. utcnow k = now)) ss" by simp
  show ?case
  proof (cases "y = yr")
    case True
    have len: "length (bump A cm mo (sale_price s)) = 12"
      using Cons.prems(2) by (simp add: length_bump)
    show ?thesis
      using Cons.IH [OF rest len, of k'] mk key True Cons.prems(2)
      by (simp add: nth_bump)
  next
    case False
    show ?thesis
      using Cons.IH [OF rest Cons.prems(2), of k'] mk key False by simp
  qed
qed

lemma nth_expense_loop:
  "list_all (\<lambda>e. fromiso (expense_date e) \<noteq> None \<or> (\<forall>k. utcnow k = now)) es \<Longrightarrow>
   length dm = 12 \<Longrightarrow>
   fst (expense_loop A fromiso utcnow yr es (dm, k)) ! idx m =
     foldl (fadd A) (dm ! idx m)
       (map amount (filter (\<lambda>e. key_at fromiso now (expense_date e) = (yr, m)) es))"
proof (induction es arbitrary: dm k)
  case Nil
  then show ?case by simp
next
  case (Cons e es)
  obtain y mo k' where mk: "month_key_from_iso fromiso utcnow k (expense_date e) = ((y, mo), k')"
    by (metis surj_pair)
  from Cons.prems(1) have "fromiso (expense_date e) \<noteq> None \<or> (\<forall>k. utcnow k = now)" by simp
  with key_fst [of fromiso "expense_date e" utcnow now k] mk have key: "key_at fromiso now (expense_date e) = (y, mo)"
    by simp
  from Cons.prems(1) have rest:
    "list_all (\<lambda>e. fromiso (expense_date e) \<noteq> None \<or> (\<forall>k. utcnow k = now)) es" by simp
  show ?case
  proof (cases "y = yr")
    case True
    have len: "length (bump A dm mo (amount e)) = 12"
      using Cons.prems(2) by (simp add: length_bump)
    show ?thesis
      using Cons.IH [OF rest len, of k'] mk key True Cons.prems(2)
      by (simp add: nth_bump)
  next
    case False
    show ?thesis
      using Cons.IH [OF rest Cons.prems(2), of k'] mk key False by simp
  qed
qed

lemma nth_purchase_loop:
  "list_all (\<lambda>p. fromiso (purchase_date p) \<noteq> None \<or> (\<forall>k. utcnow k = now)) ps \<Longrightarrow>
   length dm = 12 \<Longrightarrow>
   fst (purchase_loop A fromiso utcnow yr ps (dm, k)) ! idx m =
     foldl (fadd A) (dm ! idx m)
       (map purchase_amount (filter (\<lambda>p. key_at fromiso now (purchase_date p) = (yr, m)) ps))"
proof (induction ps arbitrary: dm k)
  case Nil
  then show ?case by simp
next
  case (Cons p ps)
  obtain y mo k' where mk: "month_key_from_iso fromiso utcnow k (purchase_date p) = ((y, mo), k')"
    by (metis surj_pair)
  from Cons.prems(1) have "fromiso (purchase_date p) \<noteq> None \<or> (\<forall>k. utcnow k = now)" by simp
  with key_fst [of fromiso "purchase_date p" utcnow now k] mk have key: "key_at fromiso now (purchase_date p) = (y, mo)"
    by simp
  from Cons.prems(1) have rest:
    "list_all (\<lambda>p. fromiso (purchase_date p) \<noteq> None \<or> (\<forall>k. utcnow k = now)) ps" by simp
  show ?case
  proof (cases "y = yr")
    case True
    have len: "length (bump A dm mo (purchase_amount p)) = 12"
      using Cons.prems(2) by (simp add: length_bump)
    show ?thesis
      using Cons.IH [OF rest len, of k'] mk key True Cons.prems(2)
      by (simp add: nth_bump)
  next
    case False
    show ?thesis
      using Cons.IH [OF rest Cons.prems(2), of k'] mk key False by simp
  qed
qed

lemma length_loops:
  "length (fst (credit_loop A fromiso utcnow yr ss ck)) = length (fst ck)"
  "length (fst (expense_loop A fromiso utcnow yr es ck)) = length (fst ck)"
  "length (fst (purchase_loop A fromiso utcnow yr ps ck)) = length (fst ck)"
  by (cases ck, simp add: length_credit_loop length_expense_loop length_purchase_loop)+

lemma nth_loops:
  "list_all (\<lambda>s. fromiso (sale_date s) \<noteq> None \<or> (\<forall>k. utcnow k = now)) ss \<Longrightarrow>
   length (fst ck) = 12 \<Longrightarrow>
   fst (credit_loop A fromiso utcnow yr ss ck) ! idx m =
     foldl (fadd A) (fst ck ! idx m)
       (map sale_price (filter (\<lambda>s. key_at fromiso now (sale_date s) = (yr, m)) ss))"
  "list_all (\<lambda>e. fromiso (expense_date e) \<noteq> None \<or> (\<forall>k. utcnow k = now)) es \<Longrightarrow>
   length (fst ck) = 12 \<Longrightarrow>
   fst (expense_loop A fromiso utcnow yr es ck) ! idx m =
     foldl (fadd A) (fst ck ! idx m)
       (map amount (filter (\<lambda>e. key_at fromiso now (expense_date e) = (yr, m)) es))"
  "list_all (\<lambda>p. fromiso (purchase_date p) \<noteq> None \<or> (\<forall>k. utcnow k = now)) ps \<Longrightarrow>
   length (fst ck) = 12 \<Longrightarrow>
   fst (purchase_loop A fromiso utcnow yr ps ck) ! idx m =
     foldl (fadd A) (fst ck ! idx m)
       (map purchase_amount (filter (\<lambda>p. key_at fromiso now (purchase_date p) = (yr, m)) ps))"
  by (cases ck, simp add: nth_credit_loop nth_expense_loop nth_purchase_loop)+

lemma aggregation_unfold:
  "monthly_aggregation_for_year A fromiso utcnow st yr =
     (fst (purchase_loop A fromiso utcnow yr (purchase_history st)
        (fst (expense_loop A fromiso utcnow yr (expenses st)
           (replicate 12 (fzero A),
            snd (credit_loop A fromiso utcnow yr (sales st) (replicate 12 (fzero A), 0)))),
         snd (expense_loop A fromiso utcnow yr (expenses st)
           (replicate 12 (fzero A),
            snd (credit_loop A fromiso utcnow yr (sales st) (replicate 12 (fzero A), 0)))))),
      fst (credit_loop A fromiso utcnow yr (sales st) (replicate 12 (fzero A), 0)))"
  by (simp add: monthly_aggregation_for_year_def Let_def split: prod.splits)

lemma aggregation_length:
  "length (fst (monthly_aggregation_for_year A fromiso utcnow st yr)) = 12 \<and>
   length (snd (monthly_aggregation_for_year A fromiso utcnow st yr)) = 12"
  by (simp add: aggregation_unfold length_loops)

lemma nth_zeros: "replicate 12 z ! idx m = z"
  using idx_less [of m] by simp

lemma aggregation_nth:
  assumes "all_dates_parse fromiso st \<or> (\<forall>k. utcnow k = now)"
  shows "snd (monthly_aggregation_for_year A fromiso utcnow st yr) ! idx m =
           credit_for A (key_at fromiso now) st yr m \<and>
         fst (monthly_aggregation_for_year A fromiso utcnow st yr) ! idx m =
           debit_for A (key_at fromiso now) st yr m"
proof -
  from assms have s:
    "list_all (\<lambda>s. fromiso (sale_date s) \<noteq> None \<or> (\<forall>k. utcnow k = now)) (sales st)"
    by (auto simp: all_dates_parse_def list_all_iff)
  from assms have e:
    "list_all (\<lambda>e. fromiso (expense_date e) \<noteq> None \<or> (\<forall>k. utcnow k = now)) (expenses st)"
    by (auto simp: all_dates_parse_def list_all_iff)
  from assms have p:
    "list_all (\<lambda>p. fromiso (purchase_date p) \<noteq> None \<or> (\<forall>k. utcnow k = now))
       (purchase_history st)"
    by (auto simp: all_dates_parse_def list_all_iff)
  have c: "snd (monthly_aggregation_for_year A fromiso utcnow st yr) ! idx m =
           credit_for A (key_at fromiso now) st yr m"
    by (simp add: aggregation_unfold nth_loops(1) [OF s] nth_zeros credit_for_def acc_sum_def)
  have d: "fst (monthly_aggregation_for_year A fromiso utcnow st yr) ! idx m =
           debit_for A (key_at fromiso now) st yr m"
    by (simp add: aggregation_unfold nth_loops(3) [OF p] nth_loops(2) [OF e]
        length_loops nth_zeros debit_for_def acc_sum_def)
  from c d show ?thesis ..
qed

text \<open>
  C1, as the code has it. The aggregation returns two lists of twelve, all \<^verbatim>\<open>0.0\<close> for
  the empty store. When every date string of the store parses, or every read of the
  clock during the call gives the same year and month \<open>now\<close>, then for every month \<open>m\<close>
  the entry \<open>m - 1\<close> of the credit list is the sum, accumulated left to right from
  \<^verbatim>\<open>0.0\<close>, of the prices of the sales whose key is that year and month, and the entry of
  the debit list is the sum accumulated over the expense amounts with that key and then
  over the purchase amounts with that key. The key of a record is the year and month
  that its date parses to, or \<open>now\<close> when the date does not parse. This holds for any
  floating point arithmetic.
\<close>

theorem monthly_aggregation_buckets:
  assumes "all_dates_parse fromiso st \<or> (\<forall>k. utcnow k = now)"
  shows "length (fst (monthly_aggregation_for_year A fromiso utcnow st yr)) = 12 \<and>
         length (snd (monthly_aggregation_for_year A fromiso utcnow st yr)) = 12 \<and>
         snd (monthly_aggregation_for_year A fromiso utcnow st yr) ! idx m =
           credit_for A (key_at fromiso now) st yr m \<and>
         fst (monthly_aggregation_for_year A fromiso utcnow st yr) ! idx m =
           debit_for A (key_at fromiso now) st yr m \<and>
         monthly_aggregation_for_year A fromiso utcnow (init_state A) yr =
           (replicate 12 (fzero A), replicate 12 (fzero A))"
proof -
  have "monthly_aggregation_for_year A fromiso utcnow (init_state A) yr =
           (replicate 12 (fzero A), replicate 12 (fzero A))"
    by (simp add: monthly_aggregation_for_year_def Let_def init_state_def)
  then show ?thesis
    using aggregation_length [of A fromiso utcnow st yr]
      aggregation_nth [OF assms, of A yr m]
    by simp
qed

theorem monthly_aggregation_buckets_witness:
  "(all_dates_parse iso_prefix scenario \<or> (\<forall>k. clock_at (2024, Mar) k = (2024, Mar))) \<and>
   snd (monthly_aggregation_for_year binary64 iso_prefix (clock_at (2024, Mar)) scenario 2024)
     ! idx Feb = 11000 \<and>
   fst (monthly_aggregation_for_year binary64 iso_prefix (clock_at (2024, Mar)) scenario 2024)
     ! idx Jan = 10000 \<and>
   fst (monthly_aggregation_for_year binary64 iso_prefix (clock_at (2024, Mar)) scenario 2024)
     ! idx Feb = 150"
proof -
  have h: "all_dates_parse iso_prefix scenario \<or> (\<forall>k. clock_at (2024, Mar) k = (2024, Mar))"
    by (simp add: clock_at_def)
  have c: "credit_for binary64 (key_at iso_prefix (2024, Mar)) scenario 2024 Feb = 11000"
    by (simp add: credit_for_def acc_sum_def scenario_eval key_at_def iso_examples
        binary64_simps round53_examples)
  have d1: "debit_for binary64 (key_at iso_prefix (2024, Mar)) scenario 2024 Jan = 10000"
    by (simp add: debit_for_def acc_sum_def scenario_eval key_at_def iso_examples
        binary64_simps round53_examples)
  have d2: "debit_for binary64 (key_at iso_prefix (2024, Mar)) scenario 2024 Feb = 150"
    by (simp add: debit_for_def acc_sum_def scenario_eval key_at_def iso_examples
        binary64_simps round53_examples)
  show ?thesis
    using h c d1 d2
      monthly_aggregation_buckets [OF h, of binary64 2024 Feb]
      monthly_aggregation_buckets [OF h, of binary64 2024 Jan]
    by simp
qed

lemma bad_sale_store_eval:
  "sales bad_sale_store =
     [\<lparr>sale_id = 1, vehicle_id = 1, customer_name = py ''Alice'', sale_price = 9000,
       sale_date = py ''not-a-date''\<rparr>]"
  "expenses bad_sale_store = []" "purchase_history bad_sale_store = []"
  by (simp_all add: bad_sale_store_def init_state_def)

lemma rounding_store_eval:
  "sales rounding_store = []"
  "expenses rounding_store =
     [\<lparr>expense_id = 1, description = strip (py ''Hall''), amount = 9007199254740992,
       expense_date = py ''2024-01-15T10:00:00''\<rparr>]"
  "purchase_history rounding_store =
     [\<lparr>purchase_amount = 1, purchase_date = py ''2024-01-15T10:00:00''\<rparr>,
      \<lparr>purchase_amount = 1, purchase_date = py ''2024-01-15T10:00:00''\<rparr>]"
  by (simp_all add: rounding_store_def init_state_def add_vehicle_def add_expense_def Let_def)

lemma reachable_rounding_store: "reachable binary64 rounding_store"
  unfolding reachable_def rounding_store_def by blast

text \<open>
  C1, as it is stated. A sale whose date string does not parse is counted in the month
  of the clock: in March 2024 the credit of March holds the 9000 of \<open>bad_sale_store\<close>,
  where no sale parses to March 2024. And the debit of a month is not the sum of the
  expenses plus the sum of the purchases: in the reachable store \<open>rounding_store\<close> the
  debit of January is \<open>(2^53 + 1) + 1 = 2^53\<close> in binary64, where the two sums add up
  to \<open>2^53 + 2\<close>.
\<close>

theorem monthly_aggregation_counterexample:
  "reachable binary64 rounding_store \<and>
   snd (monthly_aggregation_for_year binary64 iso_prefix (clock_at (2024, Mar))
          bad_sale_store 2024) ! idx Mar = 9000 \<and>
   credit_parsed binary64 iso_prefix bad_sale_store 2024 Mar = 0 \<and>
   fst (monthly_aggregation_for_year binary64 iso_prefix (clock_at (2024, Mar))
          rounding_store 2024) ! idx Jan = 9007199254740992 \<and>
   debit_split binary64 (key_at iso_prefix (2024, Mar)) rounding_store 2024 Jan =
     9007199254740994"
proof -
  have h1: "all_dates_parse iso_prefix bad_sale_store \<or>
      (\<forall>k. clock_at (2024, Mar) k = (2024, Mar))"
    by (simp add: clock_at_def)
  have h2: "all_dates_parse iso_prefix rounding_store \<or>
      (\<forall>k. clock_at (2024, Mar) k = (2024, Mar))"
    by (simp add: clock_at_def)
  have a: "snd (monthly_aggregation_for_year binary64 iso_prefix (clock_at (2024, Mar))
          bad_sale_store 2024) ! idx Mar = 9000"
    by (simp add: aggregation_nth [OF h1] credit_for_def acc_sum_def bad_sale_store_eval
        key_at_def iso_examples binary64_simps round53_examples)
  have b: "credit_parsed binary64 iso_prefix bad_sale_store 2024 Mar = 0"
    by (simp add: credit_parsed_def acc_sum_def bad_sale_store_eval iso_examples binary64_simps)
  have c: "fst (monthly_aggregation_for_year binary64 iso_prefix (clock_at (2024, Mar))
          rounding_store 2024) ! idx Jan = 9007199254740992"
    by (simp add: aggregation_nth [OF h2] debit_for_def acc_sum_def rounding_store_eval
        key_at_def iso_examples binary64_simps round53_examples)
  have d: "debit_split binary64 (key_at iso_prefix (2024, Mar)) rounding_store 2024 Jan =
     9007199254740994"
    by (simp add: debit_split_def acc_sum_def rounding_store_eval
        key_at_def iso_examples binary64_simps round53_examples)
  from reachable_rounding_store a b c d show ?thesis by blast
qed

section \<open>Aggregation and the clock\<close>

lemma key_parsed:
  "fromiso d \<noteq> None \<Longrightarrow>
   month_key_from_iso fromiso clk1 k d = month_key_from_iso fromiso clk2 k d"
  by (auto simp: month_key_from_iso_def)

lemma credit_loop_clock:
  "list_all (\<lambda>s. fromiso (sale_date s) \<noteq> None) ss \<Longrightarrow>
   credit_loop A fromiso clk1 yr ss (cm, k) = credit_loop A fromiso clk2 yr ss (cm, k)"
proof (induction ss arbitrary: cm k)
  case Nil
  then show ?case by simp
next
  case (Cons s ss)
  from Cons.prems have "fromiso (sale_date s) \<noteq> None" by simp
  with key_parsed [of fromiso "sale_date s" clk1 k clk2] Cons show ?case
    by (simp split: prod.splits)
qed

lemma expense_loop_clock:
  "list_all (\<lambda>e. fromiso (expense_date e) \<noteq> None) es \<Longrightarrow>
   expense_loop A fromiso clk1 yr es (dm, k) = expense_loop A fromiso clk2 yr es (dm, k)"
proof (induction es arbitrary: dm k)
  case Nil
  then show ?case by simp
next
  case (Cons e es)
  from Cons.prems have "fromiso (expense_date e) \<noteq> None" by simp
  with key_parsed [of fromiso "expense_date e" clk1 k clk2] Cons show ?case
    by (simp split: prod.splits)
qed

lemma purchase_loop_clock:
  "list_all (\<lambda>p. fromiso (purchase_date p) \<noteq> None) ps \<Longrightarrow>
   purchase_loop A fromiso clk1 yr ps (dm, k) = purchase_loop A fromiso clk2 yr ps (dm, k)"
proof (induction ps arbitrary: dm k)
  case Nil
  then show ?case by simp
next
  case (Cons p ps)
  from Cons.prems have "fromiso (purchase_date p) \<noteq> None" by simp
  with key_parsed [of fromiso "purchase_date p" clk1 k clk2] Cons show ?case
    by (simp split: prod.splits)
qed

text \<open>
  C7, as the code has it. Two calls on the same store return the same two lists when
  every date string of the store parses, whatever the clock shows during each call, and
  also when both calls get the same year and month at each read of the clock. The
  aggregation returns the lists only and writes nothing to the store.
\<close>

theorem aggregation_clock_independent:
  assumes "all_dates_parse fromiso st \<or> now1 = now2"
  shows "monthly_aggregation_for_year A fromiso now1 st yr =
         monthly_aggregation_for_year A fromiso now2 st yr"
proof (cases "now1 = now2")
  case True
  then show ?thesis by simp
next
  case False
  with assms have parse: "all_dates_parse fromiso st" by simp
  then have c: "credit_loop A fromiso now1 yr (sales st) (cm, k) =
      credit_loop A fromiso now2 yr (sales st) (cm, k)" for cm k
    by (simp add: all_dates_parse_def credit_loop_clock)
  then have c': "credit_loop A fromiso now1 yr (sales st) ck =
      credit_loop A fromiso now2 yr (sales st) ck" for ck
    by (cases ck) simp
  from parse have e: "expense_loop A fromiso now1 yr (expenses st) (dm, k) =
      expense_loop A fromiso now2 yr (expenses st) (dm, k)" for dm k
    by (simp add: all_dates_parse_def expense_loop_clock)
  then have e': "expense_loop A fromiso now1 yr (expenses st) ck =
      expense_loop A fromiso now2 yr (expenses st) ck" for ck
    by (cases ck) simp
  from parse have p: "purchase_loop A fromiso now1 yr (purchase_history st) (dm, k) =
      purchase_loop A fromiso now2 yr (purchase_history st) (dm, k)" for dm k
    by (simp add: all_dates_parse_def purchase_loop_clock)
  then have p': "purchase_loop A fromiso now1 yr (purchase_history st) ck =
      purchase_loop A fromiso now2 yr (purchase_history st) ck" for ck
    by (cases ck) simp
  show ?thesis
    by (simp add: aggregation_unfold c' e' p')
qed

theorem aggregation_clock_independent_witness:
  "all_dates_parse iso_prefix scenario \<and>
   monthly_aggregation_for_year binary64 iso_prefix (clock_at (2024, Mar)) scenario 2024 =
   monthly_aggregation_for_year binary64 iso_prefix (clock_at (2025, Jan)) scenario 2024"
proof -
  have h: "all_dates_parse iso_prefix scenario"
    by (simp add: all_dates_parse_def scenario_eval iso_examples)
  then have h': "all_dates_parse iso_prefix scenario \<or>
      clock_at (2024, Mar) = clock_at (2025, Jan)" ..
  show ?thesis
    using h aggregation_clock_independent [OF h', of binary64 2024] by simp
qed

lemma bad_expense_store_eval:
  "sales bad_expense_store = []"
  "expenses bad_expense_store =
     [\<lparr>expense_id = 1, description = py ''Detailing'', amount = 150,
       expense_date = py ''not-a-date''\<rparr>]"
  "purchase_history bad_expense_store = []"
  by (simp_all add: bad_expense_store_def init_state_def)

text \<open>
  C7, as it is stated, for a store with a date string that does not parse: the expense of
  \<open>bad_expense_store\<close> is counted in the month of the clock, so a call in January 2024 and
  a call in February 2024 on the same store return different debit lists.
\<close>

theorem aggregation_clock_counterexample:
  "monthly_aggregation_for_year binary64 iso_prefix (clock_at (2024, Jan)) bad_expense_store 2024
   \<noteq>
   monthly_aggregation_for_year binary64 iso_prefix (clock_at (2024, Feb)) bad_expense_store 2024"
proof
  assume eq: "monthly_aggregation_for_year binary64 iso_prefix (clock_at (2024, Jan))
      bad_expense_store 2024 =
    monthly_aggregation_for_year binary64 iso_prefix (clock_at (2024, Feb))
      bad_expense_store 2024"
  have h1: "all_dates_parse iso_prefix bad_expense_store \<or>
      (\<forall>k. clock_at (2024, Jan) k = (2024, Jan))"
    by (simp add: clock_at_def)
  have h2: "all_dates_parse iso_prefix bad_expense_store \<or>
      (\<forall>k. clock_at (2024, Feb) k = (2024, Feb))"
    by (simp add: clock_at_def)
  have "fst (monthly_aggregation_for_year binary64 iso_prefix (clock_at (2024, Jan))
      bad_expense_store 2024) ! idx Jan = 150"
    by (simp add: aggregation_nth [OF h1] debit_for_def acc_sum_def bad_expense_store_eval
        key_at_def iso_examples binary64_simps round53_examples)
  moreover
  have "fst (monthly_aggregation_for_year binary64 iso_prefix (clock_at (2024, Feb))
      bad_expense_store 2024) ! idx Jan = 0"
    by (simp add: aggregation_nth [OF h2] debit_for_def acc_sum_def bad_expense_store_eval
        key_at_def iso_examples binary64_simps)
  ultimately show False using eq by simp
qed

section \<open>Financial summary\<close>

text \<open>
  C2. The profit of the financial summary is the \<^verbatim>\<open>sum\<close> of all sale prices minus the
  cumulative purchase cost plus the \<^verbatim>\<open>sum\<close> of all expense amounts, each operation that
  of the floats; no year takes part. The status follows the sign of this float: PROFIT
  when zero is below it, LOSS when it is below zero, BREAK-EVEN otherwise, and so when
  it is zero. Of the comparison it is assumed only that \<open>x < y\<close> excludes \<open>y < x\<close>.
\<close>

theorem financial_summary_profit:
  assumes "\<forall>x y. fless A x y \<longrightarrow> \<not> fless A y x"
  shows "profit (page_financial_summary A st) =
           fsub A (fsum A (map sale_price (sales st)))
             (fadd A (cumulative_purchase_cost st) (fsum A (map amount (expenses st)))) \<and>
         verdict (page_financial_summary A st) =
           (if fless A (fzero A) (profit (page_financial_summary A st)) then PROFIT
            else if fless A (profit (page_financial_summary A st)) (fzero A) then LOSS
            else BREAK_EVEN) \<and>
         (fless A (fzero A) (profit (page_financial_summary A st)) \<longrightarrow>
            verdict (page_financial_summary A st) = PROFIT) \<and>
         (fless A (profit (page_financial_summary A st)) (fzero A) \<longrightarrow>
            verdict (page_financial_summary A st) = LOSS) \<and>
         (profit (page_financial_summary A st) = fzero A \<longrightarrow>
            verdict (page_financial_summary A st) = BREAK_EVEN)"
proof -
  let ?p = "profit (page_financial_summary A st)"
  have a: "?p = fsub A (fsum A (map sale_price (sales st)))
             (fadd A (cumulative_purchase_cost st) (fsum A (map amount (expenses st))))"
    by (simp add: page_financial_summary_def Let_def)
  have b: "verdict (page_financial_summary A st) =
      (if fless A (fzero A) ?p then PROFIT else if fless A ?p (fzero A) then LOSS
       else BREAK_EVEN)"
    by (simp add: page_financial_summary_def Let_def)
  from b have c: "fless A (fzero A) ?p \<longrightarrow> verdict (page_financial_summary A st) = PROFIT"
    by simp
  from b assms have d: "fless A ?p (fzero A) \<longrightarrow> verdict (page_financial_summary A st) = LOSS"
    by auto
  from assms have "\<not> fless A (fzero A) (fzero A)" by blast
  with b have e: "?p = fzero A \<longrightarrow> verdict (page_financial_summary A st) = BREAK_EVEN"
    by auto
  from a b c d e show ?thesis by blast
qed

theorem financial_summary_profit_witness:
  "profit (page_financial_summary binary64 scenario) = 850 \<and>
   fless binary64 (fzero binary64) (profit (page_financial_summary binary64 scenario)) \<and>
   verdict (page_financial_summary binary64 scenario) = PROFIT"
proof -
  have h: "\<forall>x y. fless binary64 x y \<longrightarrow> \<not> fless binary64 y x"
    by (simp add: binary64_simps)
  have p: "profit (page_financial_summary binary64 scenario) = 850"
    by (simp add: page_financial_summary_def Let_def scenario_eval binary64_simps
        round53_examples)
  then have l: "fless binary64 (fzero binary64) (profit (page_financial_summary binary64 scenario))"
    by (simp add: binary64_simps)
  show ?thesis
    using p l financial_summary_profit [OF h, of scenario] by simp
qed

section \<open>Totals\<close>

text \<open>
  C9. \<^verbatim>\<open>totals_from_monthly\<close> returns the \<^verbatim>\<open>sum\<close> of each of its two lists; the adjusted
  balance is the starting balance plus the difference of credit and debit, in the
  arithmetic of the floats; and for 100, 500 and 300 it is -100 in binary64.
\<close>

theorem totals_and_balance:
  "totals_from_monthly A debit_month credit_month = (fsum A debit_month, fsum A credit_month) \<and>
   adjusted_balance A starting_balance total_debit total_credit =
     fadd A starting_balance (fsub A total_credit total_debit) \<and>
   adjusted_balance binary64 100 500 300 = - 100"
  by (simp add: totals_from_monthly_def adjusted_balance_def binary64_simps round53_examples)

section \<open>Sold vehicles\<close>

text \<open>An identifier below the counter that is not in stock stays out of stock.\<close>

lemma gone_exec:
  assumes "vid \<notin> v_id ` set (inventory st)" and "vid < next_vehicle_id st"
  shows "vid \<notin> v_id ` set (inventory (fst (exec A st x))) \<and>
         vid < next_vehicle_id (fst (exec A st x))"
proof (cases x)
  case (AddVehicle b m y pp esp now)
  with assms show ?thesis by (auto simp: add_vehicle_def Let_def)
next
  case (SellVehicle v cust price now)
  with assms sell_vehicle_inventory_subset [of st v cust price now]
  show ?thesis by (auto simp: sell_vehicle_keeps)
next
  case (AddExpense d a now)
  with assms show ?thesis by (simp add: add_expense_def Let_def)
qed

lemma gone_run:
  "vid \<notin> v_id ` set (inventory st) \<Longrightarrow> vid < next_vehicle_id st \<Longrightarrow>
   vid \<notin> v_id ` set (inventory (run A st xs))"
proof (induction xs arbitrary: st)
  case Nil
  then show ?case by simp
next
  case (Cons x xs)
  from gone_exec [OF Cons.prems, of A x] Cons.IH show ?case by simp
qed

text \<open>
  C5. In a reachable store, after a sale of vehicle \<open>vid\<close> has succeeded, the lookup of
  \<open>vid\<close> finds nothing in the store after the sale and in every store that any further
  session \<open>xs\<close> leads to. In these stores, and in every reachable store, no two sale
  records name the same vehicle, and no vehicle named by a sale record is in stock.
\<close>

theorem sold_vehicle_stays_sold:
  assumes "reachable A st"
    and "sell_vehicle st vid cust price now = (st1, Success_sold vid sid)"
  shows "find_vehicle_by_id (run A st1 xs) vid = None \<and>
         distinct (map vehicle_id (sales (run A st1 xs))) \<and>
         (\<forall>s \<in> set (sales (run A st1 xs)).
            find_vehicle_by_id (run A st1 xs) (vehicle_id s) = None) \<and>
         distinct (map vehicle_id (sales st)) \<and>
         (\<forall>s \<in> set (sales st). find_vehicle_by_id st (vehicle_id s) = None)"
proof -
  from assms(1) have inv: "ids_inv st" by (rule reachable_ids_inv)
  have mem: "vid \<in> v_id ` set (inventory st)"
  proof (rule ccontr)
    assume "vid \<notin> v_id ` set (inventory st)"
    then have "sell_vehicle st vid cust price now = (st, Error_not_found)"
      by (rule sell_vehicle_absent)
    with assms(2) show False by simp
  qed
  from assms(2) have st1: "st1 = fst (sell_vehicle st vid cust price now)" by simp
  have inv1: "ids_inv st1" unfolding st1 using inv by (rule ids_inv_sell_vehicle)
  from inv have d: "distinct (map v_id (inventory st))" by (simp add: ids_inv_def)
  from pop_first_distinct [OF d, of vid]
  have gone: "vid \<notin> v_id ` set (inventory st1)"
    by (simp add: st1 sell_vehicle_found [OF mem])
  from inv mem have lt: "vid < next_vehicle_id st1"
    by (auto simp: st1 sell_vehicle_keeps ids_inv_def)
  have a: "find_vehicle_by_id (run A st1 xs) vid = None"
    using gone_run [OF gone lt, of A xs] by (simp add: find_vehicle_by_id_def find_in_None_iff)
  have invx: "ids_inv (run A st1 xs)" using inv1 by (rule ids_inv_run)
  have b: "distinct (map vehicle_id (sales (run A st1 xs)))"
    using invx by (simp add: ids_inv_def)
  have c: "\<forall>s \<in> set (sales (run A st1 xs)).
      find_vehicle_by_id (run A st1 xs) (vehicle_id s) = None"
    using invx by (simp add: ids_inv_def find_vehicle_by_id_def find_in_None_iff)
  have b0: "distinct (map vehicle_id (sales st))"
    using inv by (simp add: ids_inv_def)
  have c0: "\<forall>s \<in> set (sales st). find_vehicle_by_id st (vehicle_id s) = None"
    using inv by (simp add: ids_inv_def find_vehicle_by_id_def find_in_None_iff)
  from a b c b0 c0 show ?thesis by blast
qed

lemma sell_one_vehicle:
  "sell_vehicle one_vehicle 1 (py ''Alice'') 11000 (py ''2024-02-01T09:30:00'') =
     (fst (sell_vehicle one_vehicle 1 (py ''Alice'') 11000 (py ''2024-02-01T09:30:00'')),
      Success_sold 1 1)"
  by (simp add: one_vehicle_eval sell_vehicle_def find_vehicle_by_id_def
      remove_vehicle_by_id_def Let_def)

theorem sold_vehicle_stays_sold_witness:
  "reachable binary64 one_vehicle \<and>
   sell_vehicle one_vehicle 1 (py ''Alice'') 11000 (py ''2024-02-01T09:30:00'') =
     (fst (sell_vehicle one_vehicle 1 (py ''Alice'') 11000 (py ''2024-02-01T09:30:00'')),
      Success_sold 1 1) \<and>
   find_vehicle_by_id
     (run binary64
        (fst (sell_vehicle one_vehicle 1 (py ''Alice'') 11000 (py ''2024-02-01T09:30:00'')))
        [AddVehicle (py ''Honda'') (py ''Civic'') 2021 7000 9000 (py ''2024-03-01T08:00:00'')])
     1 = None"
  using reachable_one_vehicle sell_one_vehicle
    sold_vehicle_stays_sold [OF reachable_one_vehicle sell_one_vehicle,
      of "[AddVehicle (py ''Honda'') (py ''Civic'') 2021 7000 9000 (py ''2024-03-01T08:00:00'')]"]
  by blast

section \<open>Removal after the lookup\<close>



section \<open>Counters\<close>

lemma added_ids_other:
  "\<forall>k. m \<noteq> Success_vehicle_added k \<Longrightarrow> added_ids (m # ms) = added_ids ms"
  by (cases m) auto

lemma shift_from:
  "c # map (\<lambda>i. c + 1 + int i) [0..<n] = map (\<lambda>i. (c::int) + int i) [0..<Suc n]"
  by (induction n) (simp_all add: algebra_simps)

lemma run_log_step_other:
  assumes "\<forall>k. snd (exec A st x) \<noteq> Success_vehicle_added k"
  shows "added_ids (run_log A st (x # xs)) = added_ids (run_log A (fst (exec A st x)) xs)"
  using assms by (simp add: added_ids_other)

lemma added_ids_from:
  "added_ids (run_log A st xs) =
     map (\<lambda>i. next_vehicle_id st + int i) [0..<length (added_ids (run_log A st xs))]"
proof (induction xs arbitrary: st)
  case Nil
  then show ?case by simp
next
  case (Cons x xs)
  show ?case
  proof (cases x)
    case (AddVehicle b m y pp esp now)
    let ?st' = "fst (add_vehicle A st b m y pp esp now)"
    let ?n = "length (added_ids (run_log A ?st' xs))"
    have nx: "next_vehicle_id ?st' = next_vehicle_id st + 1"
      by (simp add: add_vehicle_def Let_def)
    have hd: "added_ids (run_log A st (x # xs)) =
        next_vehicle_id st # added_ids (run_log A ?st' xs)"
      by (simp add: AddVehicle add_vehicle_def Let_def)
    have "added_ids (run_log A ?st' xs) = map (\<lambda>i. next_vehicle_id st + 1 + int i) [0..<?n]"
      using Cons.IH [of ?st'] nx by simp
    then have "next_vehicle_id st # added_ids (run_log A ?st' xs) =
        next_vehicle_id st # map (\<lambda>i. next_vehicle_id st + 1 + int i) [0..<?n]"
      by (rule arg_cong)
    also have "\<dots> = map (\<lambda>i. next_vehicle_id st + int i) [0..<Suc ?n]"
      by (rule shift_from)
    finally have "added_ids (run_log A st (x # xs)) =
        map (\<lambda>i. next_vehicle_id st + int i) [0..<Suc ?n]"
      using hd by (rule trans [rotated])
    moreover from hd have "length (added_ids (run_log A st (x # xs))) = Suc ?n"
      by simp
    ultimately show ?thesis by (simp only:)
  next
    case (SellVehicle vid cust price now)
    have "added_ids (run_log A st (x # xs)) = added_ids (run_log A (fst (exec A st x)) xs)"
      by (rule run_log_step_other) (simp add: SellVehicle sell_vehicle_no_add)
    then show ?thesis
      using Cons.IH [of "fst (exec A st x)"] by (simp add: SellVehicle sell_vehicle_keeps)
  next
    case (AddExpense d a now)
    have "added_ids (run_log A st (x # xs)) = added_ids (run_log A (fst (exec A st x)) xs)"
      by (rule run_log_step_other) (simp add: AddExpense add_expense_def Let_def)
    then show ?thesis
      using Cons.IH [of "fst (exec A st x)"] by (simp add: AddExpense add_expense_def Let_def)
  qed
qed

lemma sorted_from: "sorted_wrt (<) (map (\<lambda>i. (c::int) + int i) [0..<n])"
  by (simp add: sorted_wrt_map sorted_wrt_iff_nth_less)

lemma added_ids_increasing: "sorted_wrt (<) (added_ids (run_log A st xs))"
  using sorted_from [of "next_vehicle_id st" "length (added_ids (run_log A st xs))"]
    added_ids_from [of A st xs] by simp

lemma counters_step:
  "next_vehicle_id (fst (exec A st x)) - next_vehicle_id st =
     int (length (purchase_history (fst (exec A st x)))) - int (length (purchase_history st)) \<and>
   next_sale_id (fst (exec A st x)) - next_sale_id st =
     int (length (sales (fst (exec A st x)))) - int (length (sales st)) \<and>
   next_expense_id (fst (exec A st x)) - next_expense_id st =
     int (length (expenses (fst (exec A st x)))) - int (length (expenses st))"
proof (cases x)
  case (AddVehicle b m y pp esp now)
  then show ?thesis by (simp add: add_vehicle_def Let_def)
next
  case (SellVehicle vid cust price now)
  then show ?thesis
    by (cases "vid \<in> v_id ` set (inventory st)")
       (simp_all add: sell_vehicle_found sell_vehicle_absent)
next
  case (AddExpense d a now)
  then show ?thesis by (simp add: add_expense_def Let_def)
qed

lemma counters_step_bounds:
  "next_vehicle_id st \<le> next_vehicle_id (fst (exec A st x)) \<and>
   next_vehicle_id (fst (exec A st x)) \<le> next_vehicle_id st + 1 \<and>
   next_sale_id st \<le> next_sale_id (fst (exec A st x)) \<and>
   next_sale_id (fst (exec A st x)) \<le> next_sale_id st + 1 \<and>
   next_expense_id st \<le> next_expense_id (fst (exec A st x)) \<and>
   next_expense_id (fst (exec A st x)) \<le> next_expense_id st + 1"
proof (cases x)
  case (AddVehicle b m y pp esp now)
  then show ?thesis by (simp add: add_vehicle_def Let_def)
next
  case (SellVehicle vid cust price now)
  then show ?thesis
    by (cases "vid \<in> v_id ` set (inventory st)")
       (simp_all add: sell_vehicle_found sell_vehicle_absent)
next
  case (AddExpense d a now)
  then show ?thesis by (simp add: add_expense_def Let_def)
qed

text \<open>
  C6. The three counters start at 1. In every step each counter grows by 0 or 1, and by
  exactly the number of entities of its kind that the step creates: purchase events
  (one for each vehicle created), sale records, expense records. \<^verbatim>\<open>add_vehicle\<close>
  gives the new vehicle the value of the counter. The identifiers that the
  \<^verbatim>\<open>add_vehicle\<close> calls of a session assign, sales and expenses in between, are strictly
  increasing, hence distinct, and from the initial store they are 1, 2, 3 and so on.
\<close>

theorem identifier_counters:
  "next_vehicle_id (init_state A) = 1 \<and> next_sale_id (init_state A) = 1 \<and>
   next_expense_id (init_state A) = 1 \<and>
   next_vehicle_id (fst (exec A st x)) - next_vehicle_id st =
     int (length (purchase_history (fst (exec A st x)))) - int (length (purchase_history st)) \<and>
   next_sale_id (fst (exec A st x)) - next_sale_id st =
     int (length (sales (fst (exec A st x)))) - int (length (sales st)) \<and>
   next_expense_id (fst (exec A st x)) - next_expense_id st =
     int (length (expenses (fst (exec A st x)))) - int (length (expenses st)) \<and>
   next_vehicle_id (fst (exec A st x)) - next_vehicle_id st \<in> {0, 1} \<and>
   next_sale_id (fst (exec A st x)) - next_sale_id st \<in> {0, 1} \<and>
   next_expense_id (fst (exec A st x)) - next_expense_id st \<in> {0, 1} \<and>
   snd (add_vehicle A st b m y pp esp now) = Success_vehicle_added (next_vehicle_id st) \<and>
   map v_id (inventory (fst (add_vehicle A st b m y pp esp now))) =
     next_vehicle_id st # map v_id (inventory st) \<and>
   sorted_wrt (<) (added_ids (run_log A st xs)) \<and>
   distinct (added_ids (run_log A st xs)) \<and>
   added_ids (run_log A (init_state A) xs) =
     map (\<lambda>i. 1 + int i) [0..<length (added_ids (run_log A (init_state A) xs))]"
proof -
  have i: "next_vehicle_id (init_state A) = 1 \<and> next_sale_id (init_state A) = 1 \<and>
      next_expense_id (init_state A) = 1"
    by (simp add: init_state_def)
  have r: "next_vehicle_id (fst (exec A st x)) - next_vehicle_id st \<in> {0, 1} \<and>
      next_sale_id (fst (exec A st x)) - next_sale_id st \<in> {0, 1} \<and>
      next_expense_id (fst (exec A st x)) - next_expense_id st \<in> {0, 1}"
    using counters_step_bounds [of st A x] by auto
  have a: "snd (add_vehicle A st b m y pp esp now) = Success_vehicle_added (next_vehicle_id st) \<and>
      map v_id (inventory (fst (add_vehicle A st b m y pp esp now))) =
        next_vehicle_id st # map v_id (inventory st)"
    by (simp add: add_vehicle_def Let_def)
  have s: "sorted_wrt (<) (added_ids (run_log A st xs))" by (rule added_ids_increasing)
  then have d: "distinct (added_ids (run_log A st xs))"
    by (simp add: strict_sorted_iff)
  have f: "added_ids (run_log A (init_state A) xs) =
     map (\<lambda>i. 1 + int i) [0..<length (added_ids (run_log A (init_state A) xs))]"
    using added_ids_from [of A "init_state A" xs] i by simp
  from i counters_step [of A st x] r a s d f show ?thesis by blast
qed

section \<open>Validation\<close>

text \<open>
  A submitted form whose brand, model, customer name or description is the empty string
  shows an error and returns the store unchanged.
\<close>

lemma forms_reject_empty:
  "page_add_vehicle A st True [] m y pp esp now = (st, Some Error_brand_model_empty) \<and>
   page_add_vehicle A st True b [] y pp esp now = (st, Some Error_brand_model_empty) \<and>
   page_sell_vehicle st True vid [] price now = (st, Some Error_customer_required) \<and>
   page_expenses A st True [] a now = (st, Some Error_description_required)"
  by (simp add: page_add_vehicle_def page_sell_vehicle_def page_expenses_def)

text \<open>
  C8. The forms test the text as entered and the operations store it stripped. A brand,
  a customer name or a description of two spaces passes the test, and the operation
  runs: the record is stored with an empty brand, customer name or description, the
  counter is incremented, and for the vehicle the purchase event is recorded. So an
  empty stored field is not rejected.
\<close>

theorem whitespace_fields_accepted:
  "map brand (inventory (fst (page_add_vehicle binary64 (init_state binary64) True
      (py ''  '') (py ''Corolla'') 2020 10000 12000 (py ''2024-01-15T10:00:00'')))) = [[]] \<and>
   next_vehicle_id (fst (page_add_vehicle binary64 (init_state binary64) True
      (py ''  '') (py ''Corolla'') 2020 10000 12000 (py ''2024-01-15T10:00:00''))) = 2 \<and>
   length (purchase_history (fst (page_add_vehicle binary64 (init_state binary64) True
      (py ''  '') (py ''Corolla'') 2020 10000 12000 (py ''2024-01-15T10:00:00'')))) = 1 \<and>
   map customer_name (sales (fst (page_sell_vehicle one_vehicle True 1
      (py ''  '') 11000 (py ''2024-02-01T09:30:00'')))) = [[]] \<and>
   next_sale_id (fst (page_sell_vehicle one_vehicle True 1
      (py ''  '') 11000 (py ''2024-02-01T09:30:00''))) = 2 \<and>
   map description (expenses (fst (page_expenses binary64 (init_state binary64) True
      (py ''  '') 150 (py ''2024-02-03T12:00:00'')))) = [[]] \<and>
   next_expense_id (fst (page_expenses binary64 (init_state binary64) True
      (py ''  '') 150 (py ''2024-02-03T12:00:00''))) = 2"
  by (simp add: page_add_vehicle_def page_sell_vehicle_def page_expenses_def add_vehicle_def
      add_expense_def sell_vehicle_def find_vehicle_by_id_def remove_vehicle_by_id_def
      one_vehicle_eval init_state_def strip_examples Let_def)

section \<open>Purchase cost\<close>

lemma purchase_inv_exec:
  assumes "cumulative_purchase_cost st = purchase_total A st"
  shows "cumulative_purchase_cost (fst (exec A st x)) = purchase_total A (fst (exec A st x))"
proof (cases x)
  case (AddVehicle b m y pp esp now)
  with assms show ?thesis
    by (simp add: add_vehicle_def Let_def purchase_total_def acc_sum_def)
next
  case (SellVehicle vid cust price now)
  with assms show ?thesis by (simp add: sell_vehicle_keeps purchase_total_def)
next
  case (AddExpense d a now)
  with assms show ?thesis by (simp add: add_expense_def Let_def purchase_total_def)
qed

lemma purchase_inv_run:
  "cumulative_purchase_cost st = purchase_total A st \<Longrightarrow>
   cumulative_purchase_cost (run A st xs) = purchase_total A (run A st xs)"
  by (induction xs arbitrary: st) (simp_all add: purchase_inv_exec)

lemma reachable_purchase_total:
  assumes "reachable A st"
  shows "cumulative_purchase_cost st = purchase_total A st"
proof -
  from assms obtain xs where st: "st = run A (init_state A) xs" by (auto simp: reachable_def)
  have "cumulative_purchase_cost (init_state A) = purchase_total A (init_state A)"
    by (simp add: init_state_def purchase_total_def acc_sum_def)
  then show ?thesis unfolding st by (rule purchase_inv_run)
qed

lemma debit_for_single_month:
  assumes "list_all (\<lambda>p. key (purchase_date p) = (yr, m)) (purchase_history st)"
    and "list_all (\<lambda>e. key (expense_date e) \<noteq> (yr, m)) (expenses st)"
  shows "debit_for A key st yr m = purchase_total A st"
proof -
  from assms(1) have "filter (\<lambda>p. key (purchase_date p) = (yr, m)) (purchase_history st) =
      purchase_history st"
    by (simp add: list_all_iff)
  moreover from assms(2) have "filter (\<lambda>e. key (expense_date e) = (yr, m)) (expenses st) = []"
    by (simp add: list_all_iff)
  ultimately show ?thesis by (simp add: debit_for_def purchase_total_def)
qed

text \<open>
  C10, as the code has it. In every reachable store the cumulative purchase cost is the
  sum, accumulated left to right from \<^verbatim>\<open>0.0\<close>, of the amounts in the purchase history,
  and it is so again after any further operation; the financial summary shows it. When
  all purchase events have the key of one month and no expense has it, the debit of
  that month accumulates the same amounts in the same order and is equal to it.
\<close>

theorem purchase_cost_invariant:
  assumes "reachable A st"
  shows "cumulative_purchase_cost st = purchase_total A st \<and>
         cumulative_purchase_cost (fst (exec A st x)) = purchase_total A (fst (exec A st x)) \<and>
         cum_purchase (page_financial_summary A st) = purchase_total A st \<and>
         (list_all (\<lambda>p. key (purchase_date p) = (yr, m)) (purchase_history st) \<and>
          list_all (\<lambda>e. key (expense_date e) \<noteq> (yr, m)) (expenses st) \<longrightarrow>
          debit_for A key st yr m = cum_purchase (page_financial_summary A st))"
proof -
  from assms have a: "cumulative_purchase_cost st = purchase_total A st"
    by (rule reachable_purchase_total)
  from assms have "reachable A (fst (exec A st x))" by (rule reachable_exec)
  then have b: "cumulative_purchase_cost (fst (exec A st x)) =
      purchase_total A (fst (exec A st x))"
    by (rule reachable_purchase_total)
  have c: "cum_purchase (page_financial_summary A st) = purchase_total A st"
    using a by (simp add: page_financial_summary_def Let_def)
  have d: "list_all (\<lambda>p. key (purchase_date p) = (yr, m)) (purchase_history st) \<and>
          list_all (\<lambda>e. key (expense_date e) \<noteq> (yr, m)) (expenses st) \<longrightarrow>
          debit_for A key st yr m = cum_purchase (page_financial_summary A st)"
    using c by (simp add: debit_for_single_month)
  from a b c d show ?thesis by blast
qed

theorem purchase_cost_invariant_witness:
  "reachable binary64 scenario \<and>
   list_all (\<lambda>p. key_at iso_prefix (2024, Mar) (purchase_date p) = (2024, Jan))
     (purchase_history scenario) \<and>
   list_all (\<lambda>e. key_at iso_prefix (2024, Mar) (expense_date e) \<noteq> (2024, Jan))
     (expenses scenario) \<and>
   cumulative_purchase_cost scenario = 10000 \<and> purchase_total binary64 scenario = 10000 \<and>
   debit_for binary64 (key_at iso_prefix (2024, Mar)) scenario 2024 Jan = 10000"
proof -
  have l: "list_all (\<lambda>p. key_at iso_prefix (2024, Mar) (purchase_date p) = (2024, Jan))
     (purchase_history scenario)"
    by (simp add: scenario_eval key_at_def iso_examples)
  have e: "list_all (\<lambda>e. key_at iso_prefix (2024, Mar) (expense_date e) \<noteq> (2024, Jan))
     (expenses scenario)"
    by (simp add: scenario_eval key_at_def iso_examples)
  have c: "cumulative_purchase_cost scenario = 10000" by (simp add: scenario_eval)
  show ?thesis
    using reachable_scenario l e c
      purchase_cost_invariant [OF reachable_scenario,
        of "AddExpense [] 0 []" "key_at iso_prefix (2024, Mar)" 2024 Jan]
    by (simp add: page_financial_summary_def Let_def)
qed

text \<open>
  C10, as it is stated. In the reachable store \<open>three_purchases\<close> the cumulative purchase
  cost is \<open>(2^53 + 1) + 1 = 2^53\<close> in binary64. The aggregation adds the same three
  purchase events month by month, \<open>2^53\<close> in January and \<open>1 + 1\<close> in February, and the
  total debit of 2024 is \<open>2^53 + 2\<close>.
\<close>

theorem purchase_cost_counterexample:
  "reachable binary64 three_purchases \<and>
   cum_purchase (page_financial_summary binary64 three_purchases) = 9007199254740992 \<and>
   fst (totals_from_monthly binary64
          (fst (monthly_aggregation_for_year binary64 iso_prefix (clock_at (2024, Mar))
                  three_purchases 2024))
          (snd (monthly_aggregation_for_year binary64 iso_prefix (clock_at (2024, Mar))
                  three_purchases 2024))) = 9007199254740994"
proof -
  have a: "cum_purchase (page_financial_summary binary64 three_purchases) = 9007199254740992"
    by (simp add: page_financial_summary_def Let_def three_purchases_eval)
  have "fst (monthly_aggregation_for_year binary64 iso_prefix (clock_at (2024, Mar))
                  three_purchases 2024) =
        [9007199254740992, 2, 0, 0, 0, 0, 0, 0, 0, 0, 0, 0]"
    by (simp add: monthly_aggregation_for_year_def Let_def three_purchases_eval replicate12
        month_key_from_iso_def iso_examples bump_def idx_def binary64_simps round53_examples)
  then have b: "fst (totals_from_monthly binary64
          (fst (monthly_aggregation_for_year binary64 iso_prefix (clock_at (2024, Mar))
                  three_purchases 2024))
          (snd (monthly_aggregation_for_year binary64 iso_prefix (clock_at (2024, Mar))
                  three_purchases 2024))) = 9007199254740994"
    by (simp add: totals_from_monthly_def binary64_simps round53_examples)
  from reachable_three_purchases a b show ?thesis by blast
qed

end
